theory Spec2Isabelle
  imports Main "HOL-Library.Word" "HOL-Library.Sublist"
begin

section \<open>JavaScript strings\<close>

text \<open>
  A JavaScript string is a sequence of UTF-16 code units. Literals of the source are
  written with \<open>js\<close>, which maps each character of a HOL string to its code unit.
\<close>

type_synonym jsstring = "16 word list"

definition js :: "string \<Rightarrow> jsstring" where
  "js s = map (\<lambda>c. of_nat (of_char c)) s"

text \<open>
  \<open>String.prototype.trim\<close> removes white space and line terminators from both ends:
  TAB, LF, VT, FF, CR, SP, NBSP, the other space separators of the Basic Multilingual
  Plane, LS, PS and ZWNBSP.
\<close>

definition isWhiteSpace :: "16 word \<Rightarrow> bool" where
  "isWhiteSpace c \<longleftrightarrow>
     c \<in> {0x9, 0xA, 0xB, 0xC, 0xD, 0x20, 0xA0, 0x1680, 0x2028, 0x2029, 0x202F, 0x205F,
          0x3000, 0xFEFF}
     \<or> (0x2000 \<le> c \<and> c \<le> 0x200A)"

definition trim :: "jsstring \<Rightarrow> jsstring" where
  "trim s = rev (dropWhile isWhiteSpace (rev (dropWhile isWhiteSpace s)))"

text \<open>
  The page function \<open>el => el.textContent?.trim() || ""\<close>: a missing text (\<open>None\<close>)
  makes the optional chain undefined, and \<open>||\<close> replaces undefined and the empty
  string by the empty string.
\<close>

definition trimmedText :: "jsstring option \<Rightarrow> jsstring" where
  "trimmedText t =
     (case t of None \<Rightarrow> []
      | Some s \<Rightarrow> if trim s = [] then [] else trim s)"

text \<open>\<open>s.includes(t)\<close>: \<open>t\<close> occurs in \<open>s\<close> as a contiguous run of code units.\<close>

fun str_includes :: "jsstring \<Rightarrow> jsstring \<Rightarrow> bool" where
  "str_includes [] t = (t = [])"
| "str_includes (c # cs) t = (prefix t (c # cs) \<or> str_includes cs t)"

section \<open>Errors, console output and observable actions\<close>

text \<open>
  An awaited driver call either resolves with a value (\<open>Inr\<close>) or rejects (\<open>Inl\<close>);
  a rejection is an exception at the \<open>await\<close>.
\<close>

datatype error = TimeoutError | DriverError nat | WorkspaceNotFound jsstring

type_synonym 'a result = "error + 'a"

datatype level = Log | Warn | Err

text \<open>The console lines of \<open>main.mjs\<close>, one constructor per template.\<close>

datatype message =
    ClickingItem nat
  | WaitingForMoreOptions
  | MenuOpened
  | SkippingNoMenu nat
  | SkippingNoPDF nat
  | ClickingPDFOption
  | HandlingPopup
  | ExportedItem nat
  | ErrorExporting nat error
  | PrintTriggered nat
  | PrintNotTriggered nat
  | ExpandingTreeItems
  | Expanding jsstring
  | ErrorExpanding jsstring error
  | ExpandingNested
  | AllExpanded
  | PageCreated
  | Navigating
  | LookingForWorkspace jsstring
  | OpeningWorkspace jsstring
  | WorkspaceOpened
  | WaitingForTreeItems
  | FoundTreeItems nat
  | ProcessingItem nat nat
  | AllItemsProcessed
  | SuccessfullyExported nat
  | SkippedTotal nat
  | UnexpectedError error
  | BrowserClosed
  | LaunchingChrome
  | ChromeLaunched
  | ScriptFinished

text \<open>
  What a run does that an observer can see: a console line, a click on an expand icon
  (with the label read for it in that iteration), the closing of the browser context,
  and \<open>process.exit\<close>.
\<close>

datatype event =
    Console level message
  | ExpandClick jsstring
  | ContextClose
  | ProcessExit nat

section \<open>The export pipeline\<close>

text \<open>
  The browser is outside the program. For one item, each driver call of the pipeline
  runs at most once, so the browser's behaviour for that item is the tuple of what each
  call answers. A popup answers the four calls made on it; a menu entry answers the
  text evaluation and the click; an item answers the calls made while it is exported.
  The wait for the popup and the click on the menu entry run side by side, so the
  item also says which of the two is the first to reject when both do.
\<close>

record popup =
  waitForLoadState :: "unit result"
  injectPrintHook :: "unit result"
  waitForPrinted :: "unit result"
  popup_close :: "unit result"

record menu_item =
  textContent :: "jsstring option result"
  menu_click :: "unit result"

record item =
  item_click :: "unit result"
  waitForMoreOptions :: "unit result"
  clickMoreOptions :: "unit result"
  waitForMenuItems :: "unit result"
  queryMenuItems :: "menu_item list result"
  waitForPopup :: "popup result"
  popupRejectsFirst :: bool
  waitAfterItem :: "unit result"

datatype outcome = Exported | Skipped

text \<open>
  \<open>findPDFOption\<close>: the \<open>for\<close> loop over \<open>page.$$('div[role="menuitem"]')\<close>.
  A rejected \<open>evaluate\<close> leaves the function as an exception.
\<close>

fun findPDFOption_loop :: "menu_item list \<Rightarrow> menu_item option result" where
  "findPDFOption_loop [] = Inr None"
| "findPDFOption_loop (it # rest) =
     (case textContent it of
        Inl e \<Rightarrow> Inl e
      | Inr t \<Rightarrow>
          if str_includes (trimmedText t) (js ''PDF'') then Inr (Some it)
          else findPDFOption_loop rest)"

definition findPDFOption :: "item \<Rightarrow> menu_item option result" where
  "findPDFOption page =
     (case queryMenuItems page of
        Inl e \<Rightarrow> Inl e
      | Inr menuItems \<Rightarrow> findPDFOption_loop menuItems)"

text \<open>
  \<open>handlePopupPrint\<close>: the load wait and the injection are awaited bare; the wait for
  \<open>window.__printed\<close> sits in a \<open>try\<close> whose \<open>catch\<close> only warns.
\<close>

definition handlePopupPrint :: "popup \<Rightarrow> nat \<Rightarrow> unit result \<times> event list" where
  "handlePopupPrint p index =
     (case waitForLoadState p of
        Inl e \<Rightarrow> (Inl e, [])
      | Inr _ \<Rightarrow>
     (case injectPrintHook p of
        Inl e \<Rightarrow> (Inl e, [])
      | Inr _ \<Rightarrow>
     (case waitForPrinted p of
        Inr _ \<Rightarrow> (Inr (), [Console Log (PrintTriggered index)])
      | Inl _ \<Rightarrow> (Inr (), [Console Warn (PrintNotTriggered index)]))))"

text \<open>
  The body of the first \<open>try\<close> of \<open>exportItemToPDF\<close>: three awaited calls in sequence.
\<close>

definition openOptionsMenu :: "item \<Rightarrow> unit result" where
  "openOptionsMenu page =
     (case waitForMoreOptions page of
        Inl e \<Rightarrow> Inl e
      | Inr _ \<Rightarrow>
     (case clickMoreOptions page of
        Inl e \<Rightarrow> Inl e
      | Inr _ \<Rightarrow> waitForMenuItems page))"

text \<open>
  \<open>Promise.all([context.waitForEvent("page"), exportButton.click()])\<close> resolves when
  both do and rejects as soon as one does, with that one's reason. When both reject,
  the reason is that of the first to reject, which \<open>firstRejectsFirst\<close> tells.
\<close>

definition promise_all :: "bool \<Rightarrow> 'a result \<Rightarrow> 'b result \<Rightarrow> ('a \<times> 'b) result" where
  "promise_all firstRejectsFirst a b =
     (case a of
        Inl ea \<Rightarrow>
          (case b of
             Inl eb \<Rightarrow> Inl (if firstRejectsFirst then ea else eb)
           | Inr _ \<Rightarrow> Inl ea)
      | Inr x \<Rightarrow>
          (case b of
             Inl eb \<Rightarrow> Inl eb
           | Inr y \<Rightarrow> Inr (x, y)))"

definition exportItemToPDF :: "item \<Rightarrow> nat \<Rightarrow> outcome result \<times> event list" where
  "exportItemToPDF it index =
     (let ev1 = [Console Log (ClickingItem (index + 1))] in
      case item_click it of
        Inl e \<Rightarrow> (Inl e, ev1)
      | Inr _ \<Rightarrow>
     (let ev2 = ev1 @ [Console Log WaitingForMoreOptions] in
      case openOptionsMenu it of
        Inl _ \<Rightarrow> (Inr Skipped, ev2 @ [Console Warn (SkippingNoMenu (index + 1))])
      | Inr _ \<Rightarrow>
     (let ev3 = ev2 @ [Console Log MenuOpened] in
      case findPDFOption it of
        Inl e \<Rightarrow> (Inl e, ev3)
      | Inr None \<Rightarrow> (Inr Skipped, ev3 @ [Console Warn (SkippingNoPDF (index + 1))])
      | Inr (Some exportButton) \<Rightarrow>
     (let ev4 = ev3 @ [Console Log ClickingPDFOption] in
      case promise_all (popupRejectsFirst it) (waitForPopup it) (menu_click exportButton) of
        Inl e \<Rightarrow> (Inl e, ev4)
      | Inr (p, _) \<Rightarrow>
     (let ev5 = ev4 @ [Console Log HandlingPopup] in
      case handlePopupPrint p (index + 1) of
        (Inl e, evp) \<Rightarrow>
          (Inr Skipped, ev5 @ evp @ [Console Err (ErrorExporting (index + 1) e)])
      | (Inr _, evp) \<Rightarrow>
     (case popup_close p of
        Inl e \<Rightarrow>
          (Inr Skipped, ev5 @ evp @ [Console Err (ErrorExporting (index + 1) e)])
      | Inr _ \<Rightarrow>
          (Inr Exported, ev5 @ evp @ [Console Log (ExportedItem (index + 1))])))))))"

section \<open>The tree expansion engine\<close>

text \<open>
  Expansion calls the driver an unbounded number of times, and what the page shows
  depends on the clicks made so far. The page is therefore a state machine over a
  state \<open>'d\<close> of the document, with handles \<open>'h\<close> for the expand icons: every
  driver call takes the document, answers, and leaves a document (waiting lets the
  page re-render).
\<close>

record ('d, 'h) page =
  waitForExpandIcon :: "'d \<Rightarrow> unit result \<times> 'd"
  queryExpandIcons :: "'d \<Rightarrow> 'h list result \<times> 'd"
  parentText :: "'h \<Rightarrow> 'd \<Rightarrow> jsstring option result \<times> 'd"
  iconClick :: "'h \<Rightarrow> 'd \<Rightarrow> unit result \<times> 'd"
  waitForTimeout500 :: "'d \<Rightarrow> unit result \<times> 'd"

text \<open>
  The state of the program during expansion: the document, the module-level set
  \<open>expandedItemsKeys\<close>, and what has been observed so far.
\<close>

record 'd world =
  dom :: 'd
  expandedItemsKeys :: "jsstring set"
  trace :: "event list"

text \<open>
  The \<open>try\<close> around \<open>icon.click()\<close> and \<open>page.waitForTimeout(500)\<close>: a rejection of
  either is logged by the \<open>catch\<close> and goes no further.
\<close>

definition clickAndSettle :: "('d, 'h) page \<Rightarrow> 'h \<Rightarrow> jsstring \<Rightarrow> 'd world \<Rightarrow> 'd world" where
  "clickAndSettle pg icon label w =
     (let w1 = w\<lparr>trace := trace w @ [ExpandClick label]\<rparr> in
      case iconClick pg icon (dom w1) of
        (Inl err, d) \<Rightarrow>
          w1\<lparr>dom := d, trace := trace w1 @ [Console Err (ErrorExpanding label err)]\<rparr>
      | (Inr _, d) \<Rightarrow>
     (case waitForTimeout500 pg d of
        (Inl err, d') \<Rightarrow>
          w1\<lparr>dom := d', trace := trace w1 @ [Console Err (ErrorExpanding label err)]\<rparr>
      | (Inr _, d') \<Rightarrow> w1\<lparr>dom := d'\<rparr>))"

text \<open>
  The \<open>for\<close> loop of one pass over the icons found at its start; \<open>expanded\<close> is the
  local flag. The label evaluation is outside the \<open>try\<close>: its rejection ends the pass
  as an exception.
\<close>

fun expandLoop ::
  "('d, 'h) page \<Rightarrow> 'h list \<Rightarrow> bool \<Rightarrow> 'd world \<Rightarrow> bool result \<times> 'd world" where
  "expandLoop pg [] expanded w = (Inr expanded, w)"
| "expandLoop pg (icon # rest) expanded w =
     (case parentText pg icon (dom w) of
        (Inl e, d) \<Rightarrow> (Inl e, w\<lparr>dom := d\<rparr>)
      | (Inr t, d) \<Rightarrow>
     (let label = trimmedText t in
      if label \<in> expandedItemsKeys w then expandLoop pg rest expanded (w\<lparr>dom := d\<rparr>)
      else
       (let w1 = w\<lparr>dom := d, trace := trace w @ [Console Log (Expanding label)]\<rparr>;
            w2 = clickAndSettle pg icon label w1
        in expandLoop pg rest True
             (w2\<lparr>expandedItemsKeys := insert label (expandedItemsKeys w2)\<rparr>))))"

text \<open>
  \<open>expandTreeItems\<close> calls itself after every pass that expanded something. Nothing in
  its text bounds the number of passes, so the model is a partial function: \<open>None\<close>
  stands for a recursion that never ends.
\<close>

partial_function (option) expandTreeItems ::
  "('d, 'h) page \<Rightarrow> 'd world \<Rightarrow> (unit result \<times> 'd world) option" where
  "expandTreeItems pg w =
     (let w0 = w\<lparr>trace := trace w @ [Console Log ExpandingTreeItems]\<rparr> in
      case waitForExpandIcon pg (dom w0) of
        (Inl e, d) \<Rightarrow> Some (Inl e, w0\<lparr>dom := d\<rparr>)
      | (Inr _, d) \<Rightarrow>
     (case queryExpandIcons pg d of
        (Inl e, d') \<Rightarrow> Some (Inl e, w0\<lparr>dom := d'\<rparr>)
      | (Inr expandIcons, d') \<Rightarrow>
     (case expandLoop pg expandIcons False (w0\<lparr>dom := d'\<rparr>) of
        (Inl e, w1) \<Rightarrow> Some (Inl e, w1)
      | (Inr expanded, w1) \<Rightarrow>
          if expanded
          then expandTreeItems pg (w1\<lparr>trace := trace w1 @ [Console Log ExpandingNested]\<rparr>)
          else Some (Inr (), w1\<lparr>trace := trace w1 @ [Console Log AllExpanded]\<rparr>))))"

declare expandTreeItems.simps [code]

section \<open>The run controller\<close>

text \<open>
  What the browser answers to the calls that \<open>launchChrome\<close>, \<open>run\<close>,
  \<open>openWorkspace\<close> and \<open>getTreeItems\<close> make. The two calls of \<open>openWorkspace\<close> that
  take the selector answer according to the selector they are given; the handle that
  \<open>page.$\<close> finds answers its click. The tree items that \<open>page.$$\<close> enumerates come
  with their behaviour in the export pipeline.
\<close>

record ('d, 'h) browser =
  launchPersistentContext :: "unit result"
  newPage :: "unit result"
  goto :: "unit result"
  waitForSelector :: "jsstring \<Rightarrow> unit result"
  querySelector :: "jsstring \<Rightarrow> unit result option result"
  expansionPage :: "('d, 'h) page"
  initialDom :: 'd
  waitForTreeItem :: "unit result"
  waitForSubtree :: "unit result"
  waitForTimeout5000 :: "unit result"
  queryTreeItems :: "item list result"
  context_close :: "unit result"

text \<open>The template literal \<open>`div[aria-label*='${workspaceName}']`\<close>.\<close>

definition workspaceSelector :: "jsstring \<Rightarrow> jsstring" where
  "workspaceSelector workspaceName =
     js ''div[aria-label*='' @ [0x27] @ workspaceName @ [0x27] @ js '']''"

definition openWorkspace ::
  "jsstring \<Rightarrow> ('d, 'h) browser \<Rightarrow> unit result \<times> event list" where
  "openWorkspace workspaceName b =
     (let selector = workspaceSelector workspaceName;
          ev1 = [Console Log Navigating] in
      case goto b of
        Inl e \<Rightarrow> (Inl e, ev1)
      | Inr _ \<Rightarrow>
     (let ev2 = ev1 @ [Console Log (LookingForWorkspace workspaceName)] in
      case waitForSelector b selector of
        Inl e \<Rightarrow> (Inl e, ev2)
      | Inr _ \<Rightarrow>
     (case querySelector b selector of
        Inl e \<Rightarrow> (Inl e, ev2)
      | Inr None \<Rightarrow> (Inl (WorkspaceNotFound workspaceName), ev2)
      | Inr (Some button) \<Rightarrow>
     (let ev3 = ev2 @ [Console Log (OpeningWorkspace workspaceName)] in
      case button of
        Inl e \<Rightarrow> (Inl e, ev3)
      | Inr _ \<Rightarrow> (Inr (), ev3 @ [Console Log WorkspaceOpened])))))"

definition getTreeItems :: "('d, 'h) browser \<Rightarrow> item list result \<times> event list" where
  "getTreeItems b =
     (let ev1 = [Console Log WaitingForTreeItems] in
      case waitForTreeItem b of
        Inl e \<Rightarrow> (Inl e, ev1)
      | Inr _ \<Rightarrow>
     (case waitForSubtree b of
        Inl e \<Rightarrow> (Inl e, ev1)
      | Inr _ \<Rightarrow>
     (case waitForTimeout5000 b of
        Inl e \<Rightarrow> (Inl e, ev1)
      | Inr _ \<Rightarrow>
     (case queryTreeItems b of
        Inl e \<Rightarrow> (Inl e, ev1)
      | Inr items \<Rightarrow> (Inr items, ev1 @ [Console Log (FoundTreeItems (length items))])))))"

text \<open>
  The \<open>for (let i = 0; i < items.length; i++)\<close> loop of \<open>run\<close>, with the two counters
  as its state. An exception of the pipeline or of the wait after an item leaves the
  loop.
\<close>

function exportLoop ::
  "item list \<Rightarrow> nat \<Rightarrow> nat \<times> nat \<Rightarrow> (nat \<times> nat) result \<times> event list" where
  "exportLoop items i (successCount, skippedCount) =
     (if i < length items then
        (let ev1 = [Console Log (ProcessingItem (i + 1) (length items))] in
         case exportItemToPDF (items ! i) i of
           (Inl e, ev) \<Rightarrow> (Inl e, ev1 @ ev)
         | (Inr result, ev) \<Rightarrow>
        (let counts = (if result = Exported then (successCount + 1, skippedCount)
                       else (successCount, skippedCount + 1)) in
         case waitAfterItem (items ! i) of
           Inl e \<Rightarrow> (Inl e, ev1 @ ev)
         | Inr _ \<Rightarrow>
        (case exportLoop items (i + 1) counts of
           (r, evs) \<Rightarrow> (r, ev1 @ ev @ evs))))
      else (Inr (successCount, skippedCount), []))"
  by pat_completeness auto
termination
  by (relation "measure (\<lambda>(items, i, counts). length items - i)") auto

declare exportLoop.simps [simp del]

text \<open>
  The body of the \<open>try\<close> of \<open>run\<close>. It yields the two counters as they stand at the
  summary, or the exception that left it. Expansion starts from the empty
  \<open>expandedItemsKeys\<close> of a fresh process.
\<close>

definition run_try ::
  "jsstring \<Rightarrow> ('d, 'h) browser \<Rightarrow> ((nat \<times> nat) result \<times> event list) option" where
  "run_try workspaceName b =
     (case newPage b of
        Inl e \<Rightarrow> Some (Inl e, [])
      | Inr _ \<Rightarrow>
     (let ev1 = [Console Log PageCreated] in
      case openWorkspace workspaceName b of
        (Inl e, ev) \<Rightarrow> Some (Inl e, ev1 @ ev)
      | (Inr _, ev) \<Rightarrow>
     (case expandTreeItems (expansionPage b)
             \<lparr>dom = initialDom b, expandedItemsKeys = {}, trace = ev1 @ ev\<rparr> of
        None \<Rightarrow> None
      | Some (Inl e, w) \<Rightarrow> Some (Inl e, trace w)
      | Some (Inr _, w) \<Rightarrow>
     (case getTreeItems b of
        (Inl e, ev') \<Rightarrow> Some (Inl e, trace w @ ev')
      | (Inr items, ev') \<Rightarrow>
     (case exportLoop items 0 (0, 0) of
        (Inl e, evs) \<Rightarrow> Some (Inl e, trace w @ ev' @ evs)
      | (Inr (successCount, skippedCount), evs) \<Rightarrow>
          Some (Inr (successCount, skippedCount),
                trace w @ ev' @ evs @
                [Console Log AllItemsProcessed,
                 Console Log (SuccessfullyExported successCount),
                 Console Log (SkippedTotal skippedCount)]))))))"

text \<open>
  How \<open>run\<close> ends: it returns, the process is ended by \<open>process.exit\<close>, or an
  exception leaves it.
\<close>

datatype ending = Returned | Exited nat | Uncaught error

text \<open>
  \<open>run\<close>: \<open>launchChrome\<close> is awaited before the \<open>try\<close>. The \<open>catch\<close> logs and calls
  \<open>process.exit(1)\<close>, which ends the Node.js process at once: control never comes
  back from it, so the \<open>finally\<close> block is reached only when the \<open>try\<close> body
  completed.
\<close>

definition run ::
  "jsstring \<Rightarrow> ('d, 'h) browser \<Rightarrow> (ending \<times> event list) option" where
  "run workspaceName b =
     (let ev0 = [Console Log LaunchingChrome] in
      case launchPersistentContext b of
        Inl e \<Rightarrow> Some (Uncaught e, ev0)
      | Inr _ \<Rightarrow>
     (let ev1 = ev0 @ [Console Log ChromeLaunched] in
      case run_try workspaceName b of
        None \<Rightarrow> None
      | Some (Inl err, ev) \<Rightarrow>
          Some (Exited 1, ev1 @ ev @ [Console Err (UnexpectedError err), ProcessExit 1])
      | Some (Inr _, ev) \<Rightarrow>
     (case context_close b of
        Inl e \<Rightarrow> Some (Uncaught e, ev1 @ ev @ [ContextClose])
      | Inr _ \<Rightarrow> Some (Returned, ev1 @ ev @ [ContextClose, Console Log BrowserClosed]))))"

section \<open>What a selector text denotes\<close>

text \<open>
  The selector that \<open>openWorkspace\<close> builds is read by the browser driver, not by
  \<open>main.mjs\<close>. To say which attribute value a selector text stands for, the reading
  of a quoted string is written out here after the CSS Syntax Module Level 3
  (\<open>consume a string token\<close>, \<open>consume an escaped code point\<close>), on UTF-16 code
  units: LF, FF and CR are newlines, CR LF counts as one newline, and NUL reads as
  U+FFFD. A lone surrogate in the text is passed through unchanged.
\<close>

definition isNewline :: "16 word \<Rightarrow> bool" where
  "isNewline c \<longleftrightarrow> c = 0xA \<or> c = 0xC \<or> c = 0xD"

definition isHexDigit :: "16 word \<Rightarrow> bool" where
  "isHexDigit c \<longleftrightarrow>
     (0x30 \<le> c \<and> c \<le> 0x39) \<or> (0x41 \<le> c \<and> c \<le> 0x46) \<or> (0x61 \<le> c \<and> c \<le> 0x66)"

definition hexValue :: "16 word \<Rightarrow> nat" where
  "hexValue c =
     (if c \<le> 0x39 then unat c - 0x30 else if c \<le> 0x46 then unat c - 0x37 else unat c - 0x57)"

definition hexNumber :: "jsstring \<Rightarrow> nat" where
  "hexNumber ds = foldl (\<lambda>n c. 16 * n + hexValue c) 0 ds"

definition escapedCodePoint :: "nat \<Rightarrow> jsstring" where
  "escapedCodePoint n =
     (if n = 0 \<or> (0xD800 \<le> n \<and> n \<le> 0xDFFF) \<or> 0x10FFFF < n then [0xFFFD]
      else if n < 0x10000 then [of_nat n]
      else [of_nat (0xD800 + (n - 0x10000) div 0x400),
            of_nat (0xDC00 + (n - 0x10000) mod 0x400)])"

text \<open>
  The reader is in one of four modes: in the string proper, just after a backslash,
  inside a hexadecimal escape (with the digits read so far), or just after a CR that
  ended an escape. It returns the value of the string and the text after its closing
  quote, and nothing for a string broken by a newline. A string that runs to the end
  of the text has nothing after it.
\<close>

datatype mode = Plain | Escape | Hex jsstring | SkipLF

definition emit :: "jsstring \<Rightarrow> (jsstring \<times> jsstring) option \<Rightarrow> (jsstring \<times> jsstring) option" where
  "emit u r = map_option (\<lambda>(v, rest). (u @ v, rest)) r"

function consumeString :: "mode \<Rightarrow> jsstring \<Rightarrow> (jsstring \<times> jsstring) option" where
  "consumeString Plain [] = Some ([], [])"
| "consumeString Plain (c # cs) =
     (if c = 0x27 then Some ([], cs)
      else if isNewline c then None
      else if c = 0x5C then consumeString Escape cs
      else emit [if c = 0 then 0xFFFD else c] (consumeString Plain cs))"
| "consumeString Escape [] = Some ([], [])"
| "consumeString Escape (c # cs) =
     (if isNewline c then consumeString (if c = 0xD then SkipLF else Plain) cs
      else if isHexDigit c then consumeString (Hex [c]) cs
      else emit [if c = 0 then 0xFFFD else c] (consumeString Plain cs))"
| "consumeString (Hex ds) [] = Some (escapedCodePoint (hexNumber ds), [])"
| "consumeString (Hex ds) (c # cs) =
     (if length ds < 6 \<and> isHexDigit c then consumeString (Hex (ds @ [c])) cs
      else if isNewline c \<or> c = 0x9 \<or> c = 0x20
      then emit (escapedCodePoint (hexNumber ds))
             (consumeString (if c = 0xD then SkipLF else Plain) cs)
      else emit (escapedCodePoint (hexNumber ds)) (consumeString Plain (c # cs)))"
| "consumeString SkipLF [] = Some ([], [])"
| "consumeString SkipLF (c # cs) =
     (if c = 0xA then consumeString Plain cs else consumeString Plain (c # cs))"
  by pat_completeness auto
termination
  by (relation "measure (\<lambda>(m, s). 2 * length s + (if m = Plain then 0 else 1))") auto

text \<open>
  The value \<open>v\<close> for which a selector text is exactly \<open>div[aria-label*='v']\<close>: the
  text opens with \<open>div[aria-label*='\<close>, a string follows, and after its closing
  quote only \<open>]\<close> is left. With such a selector the driver finds the elements whose
  label contains \<open>v\<close>.
\<close>

definition attributeValue :: "jsstring \<Rightarrow> jsstring option" where
  "attributeValue selector =
     (let start = js ''div[aria-label*='' @ [0x27] in
      if take (length start) selector = start then
        (case consumeString Plain (drop (length start) selector) of
           None \<Rightarrow> None
         | Some (v, rest) \<Rightarrow> if rest = js '']'' then Some v else None)
      else None)"

section \<open>Reading a trace\<close>

text \<open>The labels of the expand icons clicked in a stretch of a trace, in order.\<close>

fun expandClicks :: "event list \<Rightarrow> jsstring list" where
  "expandClicks [] = []"
| "expandClicks (ExpandClick l # evs) = l # expandClicks evs"
| "expandClicks (_ # evs) = expandClicks evs"

text \<open>
  The trimmed text that \<open>findPDFOption\<close> reads from a menu entry whose evaluation
  resolves, and the test it applies to it, stated with the library's notion of a
  contiguous sublist.
\<close>

definition resolves :: "menu_item \<Rightarrow> bool" where
  "resolves m = (case textContent m of Inl _ \<Rightarrow> False | Inr _ \<Rightarrow> True)"

definition mentionsPDF :: "menu_item \<Rightarrow> bool" where
  "mentionsPDF m =
     (case textContent m of
        Inl _ \<Rightarrow> False
      | Inr t \<Rightarrow> sublist (js ''PDF'') (trimmedText t))"

section \<open>Fixtures\<close>

text \<open>
  A popup and an item on which every call resolves; the item's menu has a rename entry
  and a PDF entry whose text carries surrounding white space.
\<close>

definition printing_popup :: popup where
  "printing_popup =
     \<lparr>waitForLoadState = Inr (), injectPrintHook = Inr (), waitForPrinted = Inr (),
      popup_close = Inr ()\<rparr>"

definition rename_entry :: menu_item where
  "rename_entry = \<lparr>textContent = Inr (Some (js ''Rename'')), menu_click = Inr ()\<rparr>"

definition pdf_entry :: menu_item where
  "pdf_entry = \<lparr>textContent = Inr (Some (js '' Export to PDF '')), menu_click = Inr ()\<rparr>"

definition lowercase_entry :: menu_item where
  "lowercase_entry = \<lparr>textContent = Inr (Some (js ''Export to pdf'')), menu_click = Inr ()\<rparr>"

definition exportable_item :: item where
  "exportable_item =
     \<lparr>item_click = Inr (), waitForMoreOptions = Inr (), clickMoreOptions = Inr (),
      waitForMenuItems = Inr (), queryMenuItems = Inr [rename_entry, pdf_entry],
      waitForPopup = Inr printing_popup, popupRejectsFirst = False,
      waitAfterItem = Inr ()\<rparr>"

text \<open>The same item when the print flag is never seen, and when no popup opens.\<close>

definition silent_item :: item where
  "silent_item =
     exportable_item\<lparr>waitForPopup := Inr (printing_popup\<lparr>waitForPrinted := Inl TimeoutError\<rparr>)\<rparr>"

definition popupless_item :: item where
  "popupless_item = exportable_item\<lparr>waitForPopup := Inl TimeoutError\<rparr>"

definition menuless_item :: item where
  "menuless_item = exportable_item\<lparr>waitForMoreOptions := Inl TimeoutError\<rparr>"

definition pdfless_item :: item where
  "pdfless_item = exportable_item\<lparr>queryMenuItems := Inr [rename_entry, lowercase_entry]\<rparr>"

text \<open>
  A tree with a node \<open>A\<close> that contains a node \<open>A.1\<close>, both collapsed at first. The
  document state says which of the two is expanded; icon 0 is \<open>A\<close>'s and icon 1 is
  \<open>A.1\<close>'s, shown once \<open>A\<close> is expanded. The click on \<open>A.1\<close> is rejected.
\<close>

definition nested_tree :: "(bool \<times> bool, nat) page" where
  "nested_tree =
     \<lparr>waitForExpandIcon = (\<lambda>d. (Inr (), d)),
      queryExpandIcons = (\<lambda>d. (Inr (if fst d then [0, 1] else [0]), d)),
      parentText = (\<lambda>h d. (Inr (Some (if h = 0 then js '' A '' else js ''A.1'')), d)),
      iconClick = (\<lambda>h d. if h = 0 then (Inr (), (\<not> fst d, snd d))
                          else (Inl (DriverError 7), d)),
      waitForTimeout500 = (\<lambda>d. (Inr (), d))\<rparr>"

definition collapsed :: "(bool \<times> bool) world" where
  "collapsed = \<lparr>dom = (False, False), expandedItemsKeys = {}, trace = []\<rparr>"

definition expanded_tree :: "(bool \<times> bool) world" where
  "expanded_tree =
     \<lparr>dom = (True, False), expandedItemsKeys = {js ''A'', js ''A.1''},
      trace =
        [Console Log ExpandingTreeItems,
         Console Log (Expanding (js ''A'')), ExpandClick (js ''A''),
         Console Log ExpandingNested,
         Console Log ExpandingTreeItems,
         Console Log (Expanding (js ''A.1'')), ExpandClick (js ''A.1''),
         Console Err (ErrorExpanding (js ''A.1'') (DriverError 7)),
         Console Log ExpandingNested,
         Console Log ExpandingTreeItems,
         Console Log AllExpanded]\<rparr>"

text \<open>
  An item on which neither the popup nor the click on the PDF entry comes about, the
  wait for the popup (a timeout) giving up before the click (a driver error) does.
\<close>

definition stuck_item :: item where
  "stuck_item =
     exportable_item
       \<lparr>queryMenuItems := Inr [pdf_entry\<lparr>menu_click := Inl (DriverError 3)\<rparr>],
        waitForPopup := Inl TimeoutError, popupRejectsFirst := True\<rparr>"

text \<open>A tree without any expand icon: the wait for one runs into its timeout.\<close>

definition flat_tree :: "(unit, nat) page" where
  "flat_tree =
     \<lparr>waitForExpandIcon = (\<lambda>d. (Inl TimeoutError, d)),
      queryExpandIcons = (\<lambda>d. (Inr [], d)),
      parentText = (\<lambda>h d. (Inr None, d)),
      iconClick = (\<lambda>h d. (Inr (), d)),
      waitForTimeout500 = (\<lambda>d. (Inr (), d))\<rparr>"

definition flat_world :: "unit world" where
  "flat_world = \<lparr>dom = (), expandedItemsKeys = {}, trace = []\<rparr>"

text \<open>The same tree on which the wait resolves all the same and the query finds no icon.\<close>

definition bare_tree :: "(unit, nat) page" where
  "bare_tree = flat_tree\<lparr>waitForExpandIcon := (\<lambda>d. (Inr (), d))\<rparr>"

text \<open>
  A browser that shows one workspace, \<open>Demo\<close>, with a given tree and a given list of
  tree items.
\<close>

definition demo_browser :: "('d, 'h) page \<Rightarrow> 'd \<Rightarrow> item list \<Rightarrow> ('d, 'h) browser" where
  "demo_browser pg d items =
     \<lparr>launchPersistentContext = Inr (), newPage = Inr (), goto = Inr (),
      waitForSelector =
        (\<lambda>s. if s = workspaceSelector (js ''Demo'') then Inr () else Inl TimeoutError),
      querySelector =
        (\<lambda>s. if s = workspaceSelector (js ''Demo'') then Inr (Some (Inr ())) else Inr None),
      expansionPage = pg, initialDom = d,
      waitForTreeItem = Inr (), waitForSubtree = Inr (), waitForTimeout5000 = Inr (),
      queryTreeItems = Inr items, context_close = Inr ()\<rparr>"

section \<open>Properties of the export pipeline\<close>

text \<open>\<open>includes\<close> is the library's contiguous-sublist relation, with the arguments swapped.\<close>

lemma str_includes_sublist: "str_includes s t = sublist t s"
  by (induction s) (simp_all add: sublist_Cons_right)

lemma findPDFOption_loop_find:
  "\<forall>m \<in> set ms. resolves m \<Longrightarrow> findPDFOption_loop ms = Inr (find mentionsPDF ms)"
  by (induction ms) (auto simp: resolves_def mentionsPDF_def str_includes_sublist split: sum.splits)

text \<open>
  Claim C9. When the menu query resolves and every entry's text evaluation resolves,
  \<open>findPDFOption\<close> returns the first entry, in the order of the query, whose trimmed
  text contains the code units of \<open>PDF\<close> as a contiguous run (so \<open>pdf\<close> does not
  match), and nothing when there is none. In that last case an item that was clicked
  and whose menu opened is reported as skipped, the last console line being the
  warning that no PDF export option was found.
\<close>

theorem findPDFOption_first_match:
  assumes "queryMenuItems page = Inr menuItems"
    and "\<forall>m \<in> set menuItems. resolves m"
  shows "findPDFOption page = Inr (find mentionsPDF menuItems) \<and>
         (item_click page = Inr () \<and> openOptionsMenu page = Inr () \<and>
          (\<forall>m \<in> set menuItems. \<not> mentionsPDF m) \<longrightarrow>
          exportItemToPDF page index =
            (Inr Skipped,
             [Console Log (ClickingItem (index + 1)), Console Log WaitingForMoreOptions,
              Console Log MenuOpened, Console Warn (SkippingNoPDF (index + 1))]))"
proof -
  have f: "findPDFOption page = Inr (find mentionsPDF menuItems)"
    using assms by (simp add: findPDFOption_def findPDFOption_loop_find)
  moreover have "find mentionsPDF menuItems = None" if "\<forall>m \<in> set menuItems. \<not> mentionsPDF m"
    using that by (simp add: find_None_iff)
  ultimately show ?thesis
    by (auto simp: exportItemToPDF_def)
qed

theorem findPDFOption_first_match_witness:
  "findPDFOption exportable_item = Inr (Some pdf_entry) \<and>
   exportItemToPDF pdfless_item 4 =
     (Inr Skipped,
      [Console Log (ClickingItem 5), Console Log WaitingForMoreOptions,
       Console Log MenuOpened, Console Warn (SkippingNoPDF 5)])"
proof -
  have r: "resolves rename_entry" "resolves pdf_entry" "resolves lowercase_entry"
    by (simp_all add: resolves_def rename_entry_def pdf_entry_def lowercase_entry_def)
  have m: "\<not> mentionsPDF rename_entry" "mentionsPDF pdf_entry" "\<not> mentionsPDF lowercase_entry"
    by code_simp+
  have q1: "queryMenuItems exportable_item = Inr [rename_entry, pdf_entry]"
    by (simp add: exportable_item_def)
  have q2: "queryMenuItems pdfless_item = Inr [rename_entry, lowercase_entry]"
    by (simp add: pdfless_item_def exportable_item_def)
  have o: "item_click pdfless_item = Inr ()" "openOptionsMenu pdfless_item = Inr ()"
    by (simp_all add: pdfless_item_def exportable_item_def openOptionsMenu_def)
  from findPDFOption_first_match[OF q1, of 0] r m
  have "findPDFOption exportable_item = Inr (Some pdf_entry)" by simp
  moreover from findPDFOption_first_match[OF q2, of 4] r m o
  have "exportItemToPDF pdfless_item 4 =
     (Inr Skipped,
      [Console Log (ClickingItem 5), Console Log WaitingForMoreOptions,
       Console Log MenuOpened, Console Warn (SkippingNoPDF 5)])" by simp
  ultimately show ?thesis by simp
qed

text \<open>
  Claim C7. For an item whose pipeline reaches the wait for the print flag, a rejection
  of that wait (its timeout) is answered by a warning and nothing else:
  \<open>handlePopupPrint\<close> returns normally, the outcome of the item is the one it has
  when the flag is seen, no exception leaves the pipeline, and when the popup closes
  the item counts as exported. The run goes on: once the wait after the item is over,
  the loop of \<open>run\<close> counts the item and continues with the item that follows it in
  the list, whose processing line is on the console when there is one.
\<close>

theorem print_timeout_is_only_a_warning:
  assumes "item_click it = Inr ()" and "openOptionsMenu it = Inr ()"
    and "findPDFOption it = Inr (Some exportButton)" and "menu_click exportButton = Inr ()"
    and "waitForPopup it = Inr p"
    and "waitForLoadState p = Inr ()" and "injectPrintHook p = Inr ()"
    and "waitForPrinted p = Inl e"
  shows "handlePopupPrint p (index + 1) = (Inr (), [Console Warn (PrintNotTriggered (index + 1))]) \<and>
         fst (exportItemToPDF it index) =
           fst (exportItemToPDF (it\<lparr>waitForPopup := Inr (p\<lparr>waitForPrinted := Inr ()\<rparr>)\<rparr>) index) \<and>
         (\<exists>out. fst (exportItemToPDF it index) = Inr out) \<and>
         (popup_close p = Inr () \<longrightarrow>
          exportItemToPDF it index =
            (Inr Exported,
             [Console Log (ClickingItem (index + 1)), Console Log WaitingForMoreOptions,
              Console Log MenuOpened, Console Log ClickingPDFOption, Console Log HandlingPopup,
              Console Warn (PrintNotTriggered (index + 1)),
              Console Log (ExportedItem (index + 1))])) \<and>
         (\<forall>items successCount skippedCount.
            index < length items \<and> items ! index = it \<and> waitAfterItem it = Inr () \<longrightarrow>
            exportLoop items index (successCount, skippedCount) =
              (case exportLoop items (index + 1)
                      (if popup_close p = Inr () then (successCount + 1, skippedCount)
                       else (successCount, skippedCount + 1)) of
                 (r, evs) \<Rightarrow>
                   (r, Console Log (ProcessingItem (index + 1) (length items))
                         # snd (exportItemToPDF it index) @ evs)) \<and>
            (index + 1 < length items \<longrightarrow>
               Console Log (ProcessingItem (index + 2) (length items))
                 \<in> set (snd (exportLoop items index (successCount, skippedCount)))))"
proof -
  have h: "handlePopupPrint p (index + 1) = (Inr (), [Console Warn (PrintNotTriggered (index + 1))])"
    using assms by (simp add: handlePopupPrint_def)
  have h': "handlePopupPrint (p\<lparr>waitForPrinted := Inr ()\<rparr>) (index + 1) =
      (Inr (), [Console Log (PrintTriggered (index + 1))])"
    using assms by (simp add: handlePopupPrint_def)
  have o: "openOptionsMenu (it\<lparr>waitForPopup := Inr (p\<lparr>waitForPrinted := Inr ()\<rparr>)\<rparr>) = Inr ()"
    using assms(2) by (auto simp: openOptionsMenu_def split: sum.splits)
  have f: "findPDFOption (it\<lparr>waitForPopup := Inr (p\<lparr>waitForPrinted := Inr ()\<rparr>)\<rparr>) = Inr (Some exportButton)"
    using assms(3) by (simp add: findPDFOption_def)
  have pipeline: "handlePopupPrint p (index + 1) = (Inr (), [Console Warn (PrintNotTriggered (index + 1))]) \<and>
         fst (exportItemToPDF it index) =
           fst (exportItemToPDF (it\<lparr>waitForPopup := Inr (p\<lparr>waitForPrinted := Inr ()\<rparr>)\<rparr>) index) \<and>
         (\<exists>out. fst (exportItemToPDF it index) = Inr out) \<and>
         (popup_close p = Inr () \<longrightarrow>
          exportItemToPDF it index =
            (Inr Exported,
             [Console Log (ClickingItem (index + 1)), Console Log WaitingForMoreOptions,
              Console Log MenuOpened, Console Log ClickingPDFOption, Console Log HandlingPopup,
              Console Warn (PrintNotTriggered (index + 1)),
              Console Log (ExportedItem (index + 1))]))"
    using assms h h' o f
    by (cases "popup_close p") (simp_all add: exportItemToPDF_def promise_all_def)
  have out: "fst (exportItemToPDF it index) =
      Inr (if popup_close p = Inr () then Exported else Skipped)"
    using assms h
    by (cases "popup_close p") (simp_all add: exportItemToPDF_def promise_all_def)
  have loop: "exportLoop items index (s, k) =
      (case exportLoop items (index + 1)
              (if popup_close p = Inr () then (s + 1, k) else (s, k + 1)) of
         (r, evs) \<Rightarrow>
           (r, Console Log (ProcessingItem (index + 1) (length items))
                 # snd (exportItemToPDF it index) @ evs))"
    if "index < length items" "items ! index = it" "waitAfterItem it = Inr ()" for items s k
    using that out
    by (cases "exportItemToPDF it index")
       (simp add: exportLoop.simps[of items index] split: prod.splits)
  have begun: "Console Log (ProcessingItem (index + 2) (length items))
      \<in> set (snd (exportLoop items (index + 1) c))"
    if "index + 1 < length items" for items c
    using that
    by (cases c)
       (auto simp: exportLoop.simps[of items "Suc index"] Let_def
             split: prod.splits sum.splits)
  have next_item: "Console Log (ProcessingItem (index + 2) (length items))
      \<in> set (snd (exportLoop items index (s, k)))"
    if "index < length items" "items ! index = it" "waitAfterItem it = Inr ()"
       "index + 1 < length items" for items s k
    using begun[OF that(4), of "(s + 1, k)"] begun[OF that(4), of "(s, k + 1)"]
    unfolding loop[OF that(1-3)]
    by (cases "popup_close p = Inr ()") (auto split: prod.splits)
  from pipeline loop next_item show ?thesis by blast
qed

theorem print_timeout_is_only_a_warning_witness:
  "exportItemToPDF silent_item 0 =
     (Inr Exported,
      [Console Log (ClickingItem 1), Console Log WaitingForMoreOptions,
       Console Log MenuOpened, Console Log ClickingPDFOption, Console Log HandlingPopup,
       Console Warn (PrintNotTriggered 1), Console Log (ExportedItem 1)]) \<and>
   Console Log (ProcessingItem 2 2)
     \<in> set (snd (exportLoop [silent_item, exportable_item] 0 (0, 0)))"
proof -
  let ?p = "printing_popup\<lparr>waitForPrinted := Inl TimeoutError\<rparr>"
  let ?items = "[silent_item, exportable_item]"
  have 1: "item_click silent_item = Inr ()" "openOptionsMenu silent_item = Inr ()"
          "waitForPopup silent_item = Inr ?p"
    by (simp_all add: silent_item_def exportable_item_def openOptionsMenu_def)
  have 2: "findPDFOption silent_item = Inr (Some pdf_entry)" by code_simp
  have 3: "menu_click pdf_entry = Inr ()" by (simp add: pdf_entry_def)
  have 4: "waitForLoadState ?p = Inr ()" "injectPrintHook ?p = Inr ()"
          "waitForPrinted ?p = Inl TimeoutError" "popup_close ?p = Inr ()"
    by (simp_all add: printing_popup_def)
  have 5: "0 < length ?items \<and> ?items ! 0 = silent_item \<and> waitAfterItem silent_item = Inr ()"
    by (simp add: silent_item_def exportable_item_def)
  have 6: "(0::nat) + 1 < length ?items" "(0::nat) + 2 = 2" "length ?items = 2" by simp_all
  note th = print_timeout_is_only_a_warning[OF 1(1) 1(2) 2 3 1(3) 4(1) 4(2) 4(3), of 0]
  from th 4(4) have a: "exportItemToPDF silent_item 0 =
     (Inr Exported,
      [Console Log (ClickingItem 1), Console Log WaitingForMoreOptions,
       Console Log MenuOpened, Console Log ClickingPDFOption, Console Log HandlingPopup,
       Console Warn (PrintNotTriggered 1), Console Log (ExportedItem 1)])" by simp
  from th 5 6(1) have "Console Log (ProcessingItem (0 + 2) (length ?items))
     \<in> set (snd (exportLoop ?items 0 (0, 0)))" by blast
  then have b: "Console Log (ProcessingItem 2 2) \<in> set (snd (exportLoop ?items 0 (0, 0)))"
    unfolding 6(2) 6(3) .
  from a b show ?thesis by blast
qed

text \<open>
  Claim C1. The pipeline is meant to turn every failure into the outcome skipped. The
  wait for the popup and the click that should open it are awaited outside both
  \<open>try\<close> blocks: when no popup opens, the timeout leaves \<open>exportItemToPDF\<close> as an
  exception, and the run that contains such an item ends in the top-level handler with
  exit status 1, the items after it untouched.
\<close>

theorem exportItemToPDF_popup_failure_raises:
  "fst (exportItemToPDF popupless_item 1) = Inl TimeoutError \<and>
   map_option fst (run (js ''Demo'')
      (demo_browser nested_tree (False, False) [exportable_item, popupless_item, exportable_item]))
     = Some (Exited 1)"
  by code_simp

text \<open>
  When the wait for the popup and the click both reject, the exception is that of the
  one that rejects first.
\<close>

lemma stuck_item_raises_first_rejection:
  "fst (exportItemToPDF stuck_item 0) = Inl TimeoutError \<and>
   fst (exportItemToPDF (stuck_item\<lparr>popupRejectsFirst := False\<rparr>) 0) = Inl (DriverError 3)"
  by code_simp

section \<open>Properties of the run controller\<close>

text \<open>
  What a completed export loop leaves: the counters, and the console lines of the items
  in the order of the list.
\<close>

lemma exportLoop_effect:
  "exportLoop items i (s, k) = (Inr (s', k'), evs) \<Longrightarrow>
   s' + k' = s + k + (length items - i) \<and>
   s' = s + length (filter (\<lambda>j. fst (exportItemToPDF (items ! j) j) = Inr Exported) [i..<length items]) \<and>
   k' = k + length (filter (\<lambda>j. fst (exportItemToPDF (items ! j) j) = Inr Skipped) [i..<length items]) \<and>
   evs = concat (map (\<lambda>j. Console Log (ProcessingItem (j + 1) (length items))
                          # snd (exportItemToPDF (items ! j) j)) [i..<length items])"
proof (induction items i "(s, k)" arbitrary: s k evs rule: exportLoop.induct)
  case (1 items i s k)
  show ?case
  proof (cases "i < length items")
    case False
    with "1.prems" show ?thesis by (simp add: exportLoop.simps[of items i])
  next
    case True
    obtain r ev where ex: "exportItemToPDF (items ! i) i = (r, ev)"
      by (cases "exportItemToPDF (items ! i) i")
    from "1.prems" True ex obtain out where r: "r = Inr out"
      by (cases r) (auto simp: Let_def exportLoop.simps[of items i])
    from "1.prems" True ex r obtain u where w: "waitAfterItem (items ! i) = Inr u"
      by (cases "waitAfterItem (items ! i)") (auto simp: Let_def exportLoop.simps[of items i])
    define s1 where "s1 = (if out = Exported then s + 1 else s)"
    define k1 where "k1 = (if out = Exported then k else k + 1)"
    obtain r2 evs2 where rec: "exportLoop items (i + 1) (s1, k1) = (r2, evs2)"
      by (cases "exportLoop items (i + 1) (s1, k1)")
    from "1.prems" True ex r w rec have r2: "r2 = Inr (s', k')"
      and evs: "evs = Console Log (ProcessingItem (i + 1) (length items)) # ev @ evs2"
      by (auto simp: Let_def s1_def k1_def exportLoop.simps[of items i] split: if_splits)
    have cnt: "(if out = Exported then (s + 1, k) else (s, k + 1)) = (s1, k1)"
      by (simp add: s1_def k1_def)
    from "1.hyps"[OF True refl ex[symmetric] r cnt[symmetric] w rec[unfolded r2]]
    have IH: "s' + k' = s1 + k1 + (length items - (i + 1))"
      "s' = s1 + length (filter (\<lambda>j. fst (exportItemToPDF (items ! j) j) = Inr Exported) [i + 1..<length items])"
      "k' = k1 + length (filter (\<lambda>j. fst (exportItemToPDF (items ! j) j) = Inr Skipped) [i + 1..<length items])"
      "evs2 = concat (map (\<lambda>j. Console Log (ProcessingItem (j + 1) (length items))
                          # snd (exportItemToPDF (items ! j) j)) [i + 1..<length items])"
      by simp_all
    have upt: "[i..<length items] = i # [i + 1..<length items]"
      using True by (simp add: upt_conv_Cons)
    show ?thesis
      unfolding upt using IH evs ex r True
      by (cases out) (simp_all add: s1_def k1_def)
  qed
qed

text \<open>
  Claim C8. When the body of \<open>run\<close> reaches the summary, the items were put through
  the pipeline one after the other in the order of their enumeration (the console
  lines of the loop are those of item 1, then item 2, and so on), the counter of
  exported items is the number of items whose outcome was exported, the counter of
  skipped items is the number of items whose outcome was skipped, and the two counters
  printed in the summary add up to the number of enumerated items.
\<close>

theorem run_counts_and_order:
  assumes "run_try workspaceName b = Some (Inr (successCount, skippedCount), tr)"
    and "queryTreeItems b = Inr items"
  shows "successCount + skippedCount = length items \<and>
         successCount = length (filter (\<lambda>i. fst (exportItemToPDF (items ! i) i) = Inr Exported)
                                  [0..<length items]) \<and>
         skippedCount = length (filter (\<lambda>i. fst (exportItemToPDF (items ! i) i) = Inr Skipped)
                                  [0..<length items]) \<and>
         (\<exists>pre. tr = pre @
            concat (map (\<lambda>i. Console Log (ProcessingItem (i + 1) (length items))
                              # snd (exportItemToPDF (items ! i) i)) [0..<length items]) @
            [Console Log AllItemsProcessed, Console Log (SuccessfullyExported successCount),
             Console Log (SkippedTotal skippedCount)])"
proof -
  from assms obtain pre evs where
    loop: "exportLoop items 0 (0, 0) = (Inr (successCount, skippedCount), evs)" and
    tr: "tr = pre @ evs @ [Console Log AllItemsProcessed,
            Console Log (SuccessfullyExported successCount), Console Log (SkippedTotal skippedCount)]"
    by (auto simp: run_try_def getTreeItems_def Let_def
             split: sum.splits prod.splits option.splits)
  from exportLoop_effect[OF loop] tr show ?thesis by auto
qed

theorem run_counts_and_order_witness:
  "map_option fst (run_try (js ''Demo'')
     (demo_browser nested_tree (False, False) [exportable_item, menuless_item, silent_item]))
     = Some (Inr (2, 1)) \<and>
   (2::nat) + 1 = length [exportable_item, menuless_item, silent_item]"
proof -
  let ?items = "[exportable_item, menuless_item, silent_item]"
  let ?b = "demo_browser nested_tree (False, False) ?items"
  have e: "map_option fst (run_try (js ''Demo'') ?b) = Some (Inr (2, 1))" by code_simp
  then obtain tr where r: "run_try (js ''Demo'') ?b = Some (Inr (2, 1), tr)"
    by (cases "run_try (js ''Demo'') ?b") auto
  have q: "queryTreeItems ?b = Inr ?items" by (simp add: demo_browser_def)
  from run_counts_and_order[OF r q, THEN conjunct1] e show ?thesis by blast
qed

text \<open>
  Claim C2. The \<open>finally\<close> block of \<open>run\<close> is there to close the browser context on
  every path, but the \<open>catch\<close> block ends the process with \<open>process.exit(1)\<close> before
  control can reach it. A run for a workspace that is not on the page ends with exit
  status 1 and the context is never closed.
\<close>

theorem run_fatal_error_skips_teardown:
  "(case run (js ''Nonexistent'') (demo_browser nested_tree (False, False) [exportable_item]) of
      None \<Rightarrow> False
    | Some (e, tr) \<Rightarrow> e = Exited 1 \<and> count_list tr ContextClose = 0)"
  by code_simp

section \<open>Properties of the tree expansion engine\<close>

lemma expandClicks_append: "expandClicks (xs @ ys) = expandClicks xs @ expandClicks ys"
  by (induction xs rule: expandClicks.induct) simp_all

lemma clickAndSettle_effect:
  "\<exists>es. trace (clickAndSettle pg icon l w) = trace w @ ExpandClick l # es
      \<and> expandClicks es = []
      \<and> expandedItemsKeys (clickAndSettle pg icon l w) = expandedItemsKeys w"
  by (auto simp: clickAndSettle_def Let_def split: prod.splits sum.splits)

lemma expandLoop_effect:
  "expandLoop pg icons ex w = (r, w') \<Longrightarrow>
   \<exists>evs. trace w' = trace w @ evs
       \<and> distinct (expandClicks evs)
       \<and> set (expandClicks evs) \<inter> expandedItemsKeys w = {}
       \<and> expandedItemsKeys w' = expandedItemsKeys w \<union> set (expandClicks evs)
       \<and> (r = Inr True \<longrightarrow> ex \<or> expandClicks evs \<noteq> [])"
proof (induction icons arbitrary: ex w)
  case Nil
  then show ?case by auto
next
  case (Cons icon rest)
  obtain a d where pt: "parentText pg icon (dom w) = (a, d)" by (cases "parentText pg icon (dom w)")
  show ?case
  proof (cases a)
    case (Inl e)
    with Cons.prems pt show ?thesis by auto
  next
    case (Inr t)
    define l where "l = trimmedText t"
    show ?thesis
    proof (cases "l \<in> expandedItemsKeys w")
      case True
      with Cons.prems pt Inr have "expandLoop pg rest ex (w\<lparr>dom := d\<rparr>) = (r, w')"
        by (simp add: l_def)
      from Cons.IH[OF this] show ?thesis by simp
    next
      case False
      define w1 where "w1 = w\<lparr>dom := d, trace := trace w @ [Console Log (Expanding l)]\<rparr>"
      define w2 where "w2 = clickAndSettle pg icon l w1"
      define w3 where "w3 = w2\<lparr>expandedItemsKeys := insert l (expandedItemsKeys w2)\<rparr>"
      from Cons.prems pt Inr False have run: "expandLoop pg rest True w3 = (r, w')"
        by (simp add: l_def w1_def w2_def w3_def Let_def)
      obtain es where es: "trace w2 = trace w1 @ ExpandClick l # es" "expandClicks es = []"
        "expandedItemsKeys w2 = expandedItemsKeys w1"
        using clickAndSettle_effect[of pg icon l w1] unfolding w2_def by blast
      from Cons.IH[OF run] obtain evs where evs:
        "trace w' = trace w3 @ evs" "distinct (expandClicks evs)"
        "set (expandClicks evs) \<inter> expandedItemsKeys w3 = {}"
        "expandedItemsKeys w' = expandedItemsKeys w3 \<union> set (expandClicks evs)"
        by blast
      have k3: "expandedItemsKeys w3 = insert l (expandedItemsKeys w)"
        by (simp add: w3_def es w1_def)
      have t3: "trace w3 = trace w @ Console Log (Expanding l) # ExpandClick l # es"
        by (simp add: w3_def es w1_def)
      let ?evs = "Console Log (Expanding l) # ExpandClick l # es @ evs"
      have "trace w' = trace w @ ?evs" using evs t3 by simp
      moreover have "expandClicks ?evs = l # expandClicks evs"
        by (simp add: expandClicks_append es)
      ultimately show ?thesis using evs k3 False
        by (intro exI[of _ ?evs]) auto
    qed
  qed
qed

lemma expandLoop_labels:
  assumes "\<And>h d t d'. parentText pg h d = (Inr t, d') \<Longrightarrow> trimmedText t \<in> L"
  shows "expandLoop pg icons ex w = (r, w') \<Longrightarrow> expandedItemsKeys w' \<subseteq> expandedItemsKeys w \<union> L"
proof (induction icons arbitrary: ex w)
  case Nil
  then show ?case by auto
next
  case (Cons icon rest)
  obtain a d where pt: "parentText pg icon (dom w) = (a, d)" by (cases "parentText pg icon (dom w)")
  show ?case
  proof (cases a)
    case (Inl e)
    with Cons.prems pt show ?thesis by auto
  next
    case (Inr t)
    have inL: "trimmedText t \<in> L" using assms pt Inr by blast
    show ?thesis
    proof (cases "trimmedText t \<in> expandedItemsKeys w")
      case True
      with Cons.prems pt Inr have "expandLoop pg rest ex (w\<lparr>dom := d\<rparr>) = (r, w')"
        by simp
      from Cons.IH[OF this] show ?thesis by simp
    next
      case False
      define w2 where "w2 = clickAndSettle pg icon (trimmedText t) (w\<lparr>dom := d, trace := trace w @ [Console Log (Expanding (trimmedText t))]\<rparr>)"
      from Cons.prems pt Inr False have run: "expandLoop pg rest True (w2\<lparr>expandedItemsKeys := insert (trimmedText t) (expandedItemsKeys w2)\<rparr>) = (r, w')"
        by (simp add: w2_def Let_def)
      have "expandedItemsKeys w2 = expandedItemsKeys w"
        using clickAndSettle_effect[of pg icon "trimmedText t"
            "w\<lparr>dom := d, trace := trace w @ [Console Log (Expanding (trimmedText t))]\<rparr>"]
        unfolding w2_def by auto
      with Cons.IH[OF run] inL show ?thesis by auto
    qed
  qed
qed

text \<open>
  Claim C3. When the labels that the page can show are drawn from a finite set, as
  they are for a finite navigation tree of any depth, \<open>expandTreeItems\<close> terminates,
  whatever the page does between passes: a pass that expanded nothing returns, a pass
  that expanded something has put a new label of that set into \<open>expandedItemsKeys\<close>
  before it recurses, and a pass whose wait or query is rejected ends with that
  exception.
\<close>

theorem expandTreeItems_terminates:
  assumes fin: "finite L"
    and lab: "\<And>h d t d'. parentText pg h d = (Inr t, d') \<Longrightarrow> trimmedText t \<in> L"
  shows "\<exists>r. expandTreeItems pg w = Some r"
proof (induction "card (L - expandedItemsKeys w)" arbitrary: w rule: less_induct)
  case less
  define w0 where "w0 = w\<lparr>trace := trace w @ [Console Log ExpandingTreeItems]\<rparr>"
  obtain a d where wt: "waitForExpandIcon pg (dom w0) = (a, d)" by (cases "waitForExpandIcon pg (dom w0)")
  obtain q d' where qi: "queryExpandIcons pg d = (q, d')" by (cases "queryExpandIcons pg d")
  show ?case
  proof (cases a)
    case (Inl e)
    with wt show ?thesis by (subst expandTreeItems.simps) (simp add: w0_def)
  next
    case a: (Inr u)
    show ?thesis
    proof (cases q)
      case (Inl e)
      with wt a qi show ?thesis by (subst expandTreeItems.simps) (simp add: w0_def)
    next
      case q: (Inr icons)
      obtain r w1 where lp: "expandLoop pg icons False (w0\<lparr>dom := d'\<rparr>) = (r, w1)"
        by (cases "expandLoop pg icons False (w0\<lparr>dom := d'\<rparr>)")
      show ?thesis
      proof (cases r)
        case (Inl e)
        with wt a qi q lp show ?thesis by (subst expandTreeItems.simps) (simp add: w0_def)
      next
        case r: (Inr ex)
        show ?thesis
        proof (cases ex)
          case False
          with wt a qi q lp r show ?thesis by (subst expandTreeItems.simps) (simp add: w0_def)
        next
          case True
          define w2 where "w2 = w1\<lparr>trace := trace w1 @ [Console Log ExpandingNested]\<rparr>"
          from expandLoop_effect[OF lp] r True obtain evs where
            evs: "set (expandClicks evs) \<inter> expandedItemsKeys w = {}"
              "expandedItemsKeys w1 = expandedItemsKeys w \<union> set (expandClicks evs)"
              "expandClicks evs \<noteq> []"
            by (auto simp: w0_def)
          from expandLoop_labels[OF lab lp] have sub: "expandedItemsKeys w1 \<subseteq> expandedItemsKeys w \<union> L"
            by (simp add: w0_def)
          from evs(3) obtain l where l: "l \<in> set (expandClicks evs)" by (cases "expandClicks evs") auto
          with evs sub have "l \<in> L - expandedItemsKeys w" "l \<notin> L - expandedItemsKeys w1" by auto
          moreover have "L - expandedItemsKeys w1 \<subseteq> L - expandedItemsKeys w" using evs by auto
          ultimately have "L - expandedItemsKeys w1 \<subset> L - expandedItemsKeys w" by blast
          with fin have "card (L - expandedItemsKeys w1) < card (L - expandedItemsKeys w)"
            by (intro psubset_card_mono) auto
          then have "card (L - expandedItemsKeys w2) < card (L - expandedItemsKeys w)"
            by (simp add: w2_def)
          from less[OF this] obtain res where "expandTreeItems pg w2 = Some res" by blast
          with wt a qi q lp r True show ?thesis
            by (subst expandTreeItems.simps) (simp add: w0_def w2_def)
        qed
      qed
    qed
  qed
qed
theorem expandTreeItems_terminates_witness:
  "expandTreeItems nested_tree collapsed \<noteq> None"
proof -
  have "finite {js ''A'', js ''A.1''}" by simp
  moreover have "trimmedText t \<in> {js ''A'', js ''A.1''}"
    if "parentText nested_tree h d = (Inr t, d')" for h d t d'
  proof -
    have a: "trimmedText (Some (js '' A '')) = js ''A''"
      and b: "trimmedText (Some (js ''A.1'')) = js ''A.1''"
      by code_simp+
    from that have "t = Some (js '' A '') \<or> t = Some (js ''A.1'')"
      by (cases "h = 0") (simp_all add: nested_tree_def)
    with a b show ?thesis by auto
  qed
  ultimately show ?thesis
    using expandTreeItems_terminates[of "{js ''A'', js ''A.1''}" nested_tree collapsed] by auto
qed

lemma expandTreeItems_effect:
  "expandTreeItems pg w = Some y \<Longrightarrow>
   \<exists>evs. trace (snd y) = trace w @ evs
       \<and> distinct (expandClicks evs)
       \<and> set (expandClicks evs) \<inter> expandedItemsKeys w = {}
       \<and> expandedItemsKeys (snd y) = expandedItemsKeys w \<union> set (expandClicks evs)"
proof (induction pg w y rule: expandTreeItems.raw_induct[rotated, consumes 1, case_names step])
  case (step rec pg w y)
  define w0 where "w0 = w\<lparr>trace := trace w @ [Console Log ExpandingTreeItems]\<rparr>"
  obtain a d where wt: "waitForExpandIcon pg (dom w0) = (a, d)" by (cases "waitForExpandIcon pg (dom w0)")
  obtain q d' where qi: "queryExpandIcons pg d = (q, d')" by (cases "queryExpandIcons pg d")
  note body = step.hyps
  show ?case
  proof (cases a)
    case (Inl e)
    with wt body have "snd y = w0\<lparr>dom := d\<rparr>" by (auto simp: w0_def)
    then show ?thesis by (intro exI[of _ "[Console Log ExpandingTreeItems]"]) (simp add: w0_def)
  next
    case a: (Inr u)
    show ?thesis
    proof (cases q)
      case (Inl e)
      with wt a qi body have "snd y = w0\<lparr>dom := d'\<rparr>" by (auto simp: w0_def)
      then show ?thesis by (intro exI[of _ "[Console Log ExpandingTreeItems]"]) (simp add: w0_def)
    next
      case q: (Inr icons)
      obtain r1 w1 where lp: "expandLoop pg icons False (w0\<lparr>dom := d'\<rparr>) = (r1, w1)"
        by (cases "expandLoop pg icons False (w0\<lparr>dom := d'\<rparr>)")
      from expandLoop_effect[OF lp] obtain evs where evs:
        "trace w1 = trace w0 @ evs" "distinct (expandClicks evs)"
        "set (expandClicks evs) \<inter> expandedItemsKeys w = {}"
        "expandedItemsKeys w1 = expandedItemsKeys w \<union> set (expandClicks evs)"
        by (auto simp: w0_def)
      show ?thesis
      proof (cases r1)
        case (Inl e)
        with wt a qi q lp body have "snd y = w1" by (auto simp: w0_def)
        with evs show ?thesis
          by (intro exI[of _ "Console Log ExpandingTreeItems # evs"]) (simp add: w0_def)
      next
        case r1: (Inr ex)
        show ?thesis
        proof (cases ex)
          case False
          with wt a qi q lp r1 body
          have "snd y = w1\<lparr>trace := trace w1 @ [Console Log AllExpanded]\<rparr>" by (auto simp: w0_def)
          with evs show ?thesis
            by (intro exI[of _ "Console Log ExpandingTreeItems # evs @ [Console Log AllExpanded]"])
               (simp add: w0_def expandClicks_append)
        next
          case True
          define w2 where "w2 = w1\<lparr>trace := trace w1 @ [Console Log ExpandingNested]\<rparr>"
          from True wt a qi q lp r1 body have "rec pg w2 = Some y"
            by (simp add: w0_def w2_def)
          from step.IH[OF this] obtain evs2 where evs2:
            "trace (snd y) = trace w2 @ evs2" "distinct (expandClicks evs2)"
            "set (expandClicks evs2) \<inter> expandedItemsKeys w2 = {}"
            "expandedItemsKeys (snd y) = expandedItemsKeys w2 \<union> set (expandClicks evs2)"
            by blast
          let ?evs = "Console Log ExpandingTreeItems # evs @ Console Log ExpandingNested # evs2"
          have "trace (snd y) = trace w @ ?evs" using evs evs2 by (simp add: w2_def w0_def)
          moreover have "expandClicks ?evs = expandClicks evs @ expandClicks evs2"
            by (simp add: expandClicks_append)
          moreover have "expandedItemsKeys w2 = expandedItemsKeys w1" by (simp add: w2_def)
          ultimately show ?thesis using evs evs2
            by (intro exI[of _ ?evs]) auto
        qed
      qed
    qed
  qed
qed

text \<open>
  Claim C4. From any state of the program, the expand clicks that a call of
  \<open>expandTreeItems\<close> makes, over all its iterations and recursive passes, carry
  pairwise distinct labels, none of which was in \<open>expandedItemsKeys\<close> when the call
  began, and all of which are in it at the end. A label that is in the set is
  therefore never clicked again, whatever the page shows later, and a run, which
  starts from the empty set, clicks each label at most once.
\<close>

theorem expandTreeItems_clicks_once:
  "expandTreeItems pg w = Some (r, w') \<Longrightarrow>
   \<exists>evs. trace w' = trace w @ evs
       \<and> distinct (expandClicks evs)
       \<and> set (expandClicks evs) \<inter> expandedItemsKeys w = {}
       \<and> expandedItemsKeys w' = expandedItemsKeys w \<union> set (expandClicks evs)"
  using expandTreeItems_effect[of pg w "(r, w')"] by simp

theorem expandTreeItems_clicks_once_witness:
  "expandTreeItems nested_tree collapsed = Some (Inr (), expanded_tree) \<and>
   distinct (expandClicks (trace expanded_tree)) \<and>
   expandedItemsKeys expanded_tree = set (expandClicks (trace expanded_tree))"
proof -
  have r: "expandTreeItems nested_tree collapsed = Some (Inr (), expanded_tree)" by code_simp
  from expandTreeItems_clicks_once[OF r] r show ?thesis by (auto simp: collapsed_def)
qed

text \<open>
  Claim C6. When the click on an expand icon is rejected, the pass goes on with the
  remaining icons from a state in which the error has been logged and the icon's label
  is in \<open>expandedItemsKeys\<close>; the label is still in the set when the pass ends, and
  the rest of the pass does not click it again.
\<close>

theorem expandLoop_click_failure_continues:
  assumes "parentText pg icon (dom w) = (Inr t, d)"
    and "trimmedText t \<notin> expandedItemsKeys w"
    and "iconClick pg icon d = (Inl err, d')"
  shows "expandLoop pg (icon # rest) expanded w =
           expandLoop pg rest True
             \<lparr>dom = d',
              expandedItemsKeys = insert (trimmedText t) (expandedItemsKeys w),
              trace = trace w @
                [Console Log (Expanding (trimmedText t)), ExpandClick (trimmedText t),
                 Console Err (ErrorExpanding (trimmedText t) err)]\<rparr> \<and>
         trimmedText t \<in> expandedItemsKeys (snd (expandLoop pg (icon # rest) expanded w)) \<and>
         (\<exists>evs. trace (snd (expandLoop pg (icon # rest) expanded w)) =
                  trace w @
                  [Console Log (Expanding (trimmedText t)), ExpandClick (trimmedText t),
                   Console Err (ErrorExpanding (trimmedText t) err)] @ evs \<and>
                trimmedText t \<notin> set (expandClicks evs))"
proof -
  let ?l = "trimmedText t"
  let ?w = "\<lparr>dom = d', expandedItemsKeys = insert ?l (expandedItemsKeys w),
             trace = trace w @ [Console Log (Expanding ?l), ExpandClick ?l,
                                Console Err (ErrorExpanding ?l err)]\<rparr>"
  have step: "expandLoop pg (icon # rest) expanded w = expandLoop pg rest True ?w"
    using assms by (cases w) (simp add: clickAndSettle_def Let_def)
  obtain r w' where rest: "expandLoop pg rest True ?w = (r, w')"
    by (cases "expandLoop pg rest True ?w")
  from expandLoop_effect[OF rest] obtain evs where
    "trace w' = trace ?w @ evs" "set (expandClicks evs) \<inter> expandedItemsKeys ?w = {}"
    "expandedItemsKeys w' = expandedItemsKeys ?w \<union> set (expandClicks evs)"
    by blast
  then show ?thesis using step rest by auto
qed

theorem expandLoop_click_failure_continues_witness:
  "expandLoop nested_tree [1, 0] False (collapsed\<lparr>dom := (True, False)\<rparr>) =
     expandLoop nested_tree [0] True
       \<lparr>dom = (True, False), expandedItemsKeys = insert (js ''A.1'') {},
        trace = [Console Log (Expanding (js ''A.1'')), ExpandClick (js ''A.1''),
                 Console Err (ErrorExpanding (js ''A.1'') (DriverError 7))]\<rparr> \<and>
   js ''A.1'' \<in> expandedItemsKeys
      (snd (expandLoop nested_tree [1, 0] False (collapsed\<lparr>dom := (True, False)\<rparr>)))"
proof -
  let ?w = "collapsed\<lparr>dom := (True, False)\<rparr>"
  have t: "trimmedText (Some (js ''A.1'')) = js ''A.1''" by code_simp
  have k: "expandedItemsKeys ?w = {}" and tr: "trace ?w = []"
    by (simp_all add: collapsed_def)
  have 1: "parentText nested_tree 1 (dom ?w) = (Inr (Some (js ''A.1'')), (True, False))"
    by (simp add: nested_tree_def collapsed_def)
  have 2: "trimmedText (Some (js ''A.1'')) \<notin> expandedItemsKeys ?w"
    by (simp add: collapsed_def)
  have 3: "iconClick nested_tree 1 (True, False) = (Inl (DriverError 7), (True, False))"
    by (simp add: nested_tree_def)
  from expandLoop_click_failure_continues[OF 1 2 3, of "[0]" False, unfolded t k tr append_Nil]
  show ?thesis by blast
qed

text \<open>
  The wait for an expand icon at the start of a pass is awaited outside any \<open>try\<close>:
  its rejection leaves \<open>expandTreeItems\<close> as an exception, with nothing clicked and
  \<open>expandedItemsKeys\<close> unchanged.
\<close>

lemma expandTreeItems_wait_timeout_raises:
  assumes "waitForExpandIcon pg (dom w) = (Inl e, d)"
  shows "expandTreeItems pg w =
           Some (Inl e, w\<lparr>dom := d, trace := trace w @ [Console Log ExpandingTreeItems]\<rparr>)"
  using assms by (subst expandTreeItems.simps) simp

text \<open>
  Claim C5. A tree in which no expand icon appears within the bounded wait should
  count as fully expanded. It does not: on a workspace with two exportable items and
  no expandable node, the pass ends with the timeout of the wait, and the run ends in
  the top-level handler, which logs the error and exits with status 1 before any item
  is begun. The rest of the pass copes with such a tree: with the wait resolved and no
  icon found, \<open>expandTreeItems\<close> reports all items expanded and returns normally.
\<close>

theorem expandTreeItems_flat_tree_aborts_run:
  "expandTreeItems flat_tree flat_world =
     Some (Inl TimeoutError, flat_world\<lparr>trace := [Console Log ExpandingTreeItems]\<rparr>) \<and>
   run (js ''Demo'') (demo_browser flat_tree () [exportable_item, exportable_item]) =
     Some (Exited 1,
       [Console Log LaunchingChrome, Console Log ChromeLaunched, Console Log PageCreated,
        Console Log Navigating, Console Log (LookingForWorkspace (js ''Demo'')),
        Console Log (OpeningWorkspace (js ''Demo'')), Console Log WorkspaceOpened,
        Console Log ExpandingTreeItems,
        Console Err (UnexpectedError TimeoutError), ProcessExit 1]) \<and>
   expandTreeItems bare_tree flat_world =
     Some (Inr (), flat_world\<lparr>trace := [Console Log ExpandingTreeItems, Console Log AllExpanded]\<rparr>)"
  by code_simp

section \<open>Properties of the workspace selector\<close>

lemma escapedCodePoint_length: "ds \<noteq> [] \<Longrightarrow> length (escapedCodePoint (hexNumber ds)) \<le> length ds"
proof (cases ds)
  case Nil
  assume "ds \<noteq> []" with Nil show ?thesis by simp
next
  case (Cons c cs)
  show ?thesis
  proof (cases cs)
    case Nil
    have "unat c < 65536" using unsigned_less[of c] by simp
    then have "hexValue c < 65536" unfolding hexValue_def by auto
    with Cons Nil show ?thesis by (simp add: hexNumber_def escapedCodePoint_def)
  next
    case (Cons d ds')
    with \<open>ds = c # cs\<close> show ?thesis by (simp add: escapedCodePoint_def)
  qed
qed

lemma emit_Some: "emit u x = Some (v, r) \<longleftrightarrow> (\<exists>v'. x = Some (v', r) \<and> v = u @ v')"
  by (cases x) (auto simp: emit_def)

lemma consumeString_length:
  "consumeString m s = Some (v, r) \<Longrightarrow> r \<noteq> [] \<Longrightarrow>
   (m = Plain \<longrightarrow> length v + 1 + length r \<le> length s \<and>
        (length v + 1 + length r = length s \<longrightarrow> 0x27 \<notin> set (take (length v) s))) \<and>
   (m = Escape \<or> m = SkipLF \<longrightarrow> length v + 1 + length r \<le> length s) \<and>
   (\<forall>ds. m = Hex ds \<and> ds \<noteq> [] \<longrightarrow> length v + 1 + length r \<le> length s + length ds)"
proof (induction m s arbitrary: v rule: consumeString.induct)
  case 1 then show ?case by simp
next
  case (2 c cs)
  show ?case
  proof (cases "c = 0x27")
    case True
    with "2.prems" show ?thesis by auto
  next
    case q: False
    show ?thesis
    proof (cases "isNewline c")
      case True
      with q "2.prems" show ?thesis by simp
    next
      case n: False
      show ?thesis
      proof (cases "c = 0x5C")
        case True
        with q n "2.prems" have "consumeString Escape cs = Some (v, r)" by simp
        from "2.IH"(1)[OF q n True this "2.prems"(2)] show ?thesis by auto
      next
        case False
        with q n "2.prems" obtain v' where
          v': "consumeString Plain cs = Some (v', r)" "v = (if c = 0 then 0xFFFD else c) # v'"
          by (auto simp: emit_Some)
        from "2.IH"(2)[OF q n False v'(1) "2.prems"(2)] v'(2) q show ?thesis by auto
      qed
    qed
  qed
next
  case 3 then show ?case by simp
next
  case (4 c cs)
  show ?case
  proof (cases "isNewline c")
    case True
    with "4.prems" have "consumeString (if c = 0xD then SkipLF else Plain) cs = Some (v, r)" by simp
    from "4.IH"(1)[OF True this "4.prems"(2)] show ?thesis by (auto split: if_splits)
  next
    case n: False
    show ?thesis
    proof (cases "isHexDigit c")
      case True
      with n "4.prems" have "consumeString (Hex [c]) cs = Some (v, r)" by simp
      from "4.IH"(2)[OF n True this "4.prems"(2)] show ?thesis by auto
    next
      case False
      with n "4.prems" obtain v' where
        v': "consumeString Plain cs = Some (v', r)" "v = (if c = 0 then 0xFFFD else c) # v'"
        by (auto simp: emit_Some)
      from "4.IH"(3)[OF n False v'(1) "4.prems"(2)] v'(2) show ?thesis by auto
    qed
  qed
next
  case (5 ds) then show ?case by simp
next
  case (6 ds c cs)
  show ?case
  proof (cases "ds = []")
    case True
    then show ?thesis by simp
  next
    case ne: False
    note E = escapedCodePoint_length[OF ne]
    show ?thesis
    proof (cases "length ds < 6 \<and> isHexDigit c")
      case True
      with "6.prems" have "consumeString (Hex (ds @ [c])) cs = Some (v, r)" by simp
      from "6.IH"(1)[OF True this "6.prems"(2)] show ?thesis by auto
    next
      case h: False
      show ?thesis
      proof (cases "isNewline c \<or> c = 0x9 \<or> c = 0x20")
        case True
        with h "6.prems" obtain v' where
          v': "consumeString (if c = 0xD then SkipLF else Plain) cs = Some (v', r)"
              "v = escapedCodePoint (hexNumber ds) @ v'"
          by (auto simp: emit_Some)
        from "6.IH"(2)[OF h True v'(1) "6.prems"(2)] v'(2) E show ?thesis
          by (auto split: if_splits)
      next
        case False
        with h "6.prems" obtain v' where
          v': "consumeString Plain (c # cs) = Some (v', r)"
              "v = escapedCodePoint (hexNumber ds) @ v'"
          by (auto simp: emit_Some)
        from "6.IH"(3)[OF h False v'(1) "6.prems"(2)] v'(2) E show ?thesis by auto
      qed
    qed
  qed
next
  case 7 then show ?case by simp
next
  case (8 c cs)
  show ?case
  proof (cases "c = 0xA")
    case True
    with "8.prems" have "consumeString Plain cs = Some (v, r)" by simp
    from "8.IH"(1)[OF True this "8.prems"(2)] show ?thesis by auto
  next
    case False
    with "8.prems" have "consumeString Plain (c # cs) = Some (v, r)" by simp
    from "8.IH"(2)[OF False this "8.prems"(2)] show ?thesis by auto
  qed
qed

lemma consumeString_plain:
  "\<forall>c \<in> set name. c \<notin> {0x27, 0x5C, 0xA, 0xC, 0xD, 0x0} \<Longrightarrow>
   consumeString Plain (name @ 0x27 # rest) = Some (name, rest)"
  by (induction name) (auto simp: emit_def isNewline_def)

lemma attributeValue_selector:
  "attributeValue (workspaceSelector name) =
     (case consumeString Plain (name @ [0x27, 0x5D]) of
        None \<Rightarrow> None
      | Some (v, rest) \<Rightarrow> if rest = [0x5D] then Some v else None)"
proof -
  define start where "start = js ''div[aria-label*='' @ [0x27::16 word]"
  have w: "workspaceSelector name = start @ name @ [0x27, 0x5D]"
    by (simp add: workspaceSelector_def start_def js_def)
  have r: "js '']'' = [0x5D]" by (simp add: js_def)
  show ?thesis
    unfolding attributeValue_def Let_def start_def[symmetric] w r by simp
qed

text \<open>
  Claim C10, as the program has it. \<open>openWorkspace\<close> puts the workspace name between
  the quotes of \<open>div[aria-label*='...']\<close> as it is, without escaping. For a name that
  contains a single quote the text is therefore not the attribute selector for that
  name. A name without single quote, backslash, newline and NUL, closing brackets
  included, yields the attribute selector whose value is the name.
\<close>

theorem workspaceSelector_unescaped:
  "workspaceSelector name = js ''div[aria-label*='' @ [0x27] @ name @ [0x27] @ js '']'' \<and>
   (0x27 \<in> set name \<longrightarrow> attributeValue (workspaceSelector name) \<noteq> Some name) \<and>
   ((\<forall>c \<in> set name. c \<notin> {0x27, 0x5C, 0xA, 0xC, 0xD, 0x0}) \<longrightarrow>
      attributeValue (workspaceSelector name) = Some name)"
proof (intro conjI impI)
  show "workspaceSelector name = js ''div[aria-label*='' @ [0x27] @ name @ [0x27] @ js '']''"
    by (simp add: workspaceSelector_def)
next
  assume q: "0x27 \<in> set name"
  show "attributeValue (workspaceSelector name) \<noteq> Some name"
  proof
    assume "attributeValue (workspaceSelector name) = Some name"
    then have c: "consumeString Plain (name @ [0x27, 0x5D]) = Some (name, [0x5D])"
      by (auto simp: attributeValue_selector split: option.splits if_splits)
    from consumeString_length[OF c] have "0x27 \<notin> set (take (length name) (name @ [0x27, 0x5D]))"
      by simp
    with q show False by simp
  qed
next
  assume "\<forall>c \<in> set name. c \<notin> {0x27, 0x5C, 0xA, 0xC, 0xD, 0x0}"
  from consumeString_plain[OF this, of "[0x5D]"]
  show "attributeValue (workspaceSelector name) = Some name"
    by (simp add: attributeValue_selector)
qed

theorem workspaceSelector_unescaped_witness:
  "attributeValue (workspaceSelector (js ''Bob'' @ [0x27] @ js ''s'')) \<noteq> Some (js ''Bob'' @ [0x27] @ js ''s'') \<and>
   attributeValue (workspaceSelector (js ''Demo'')) = Some (js ''Demo'')"
proof -
  have 1: "0x27 \<in> set (js ''Bob'' @ [0x27] @ js ''s'')" by simp
  have 2: "\<forall>c \<in> set (js ''Demo''). c \<notin> {0x27, 0x5C, 0xA, 0xC, 0xD, 0x0}" by (simp add: js_def)
  from workspaceSelector_unescaped[of "js ''Bob'' @ [0x27] @ js ''s''"] 1
       workspaceSelector_unescaped[of "js ''Demo''"] 2
  show ?thesis by blast
qed

text \<open>
  A closing bracket inside the quotes is an ordinary character: for the name \<open>a]b\<close>
  the selector is the attribute selector for \<open>a]b\<close>.
\<close>

theorem workspaceSelector_bracket_counterexample:
  "0x5D \<in> set (js ''a]b'') \<and>
   attributeValue (workspaceSelector (js ''a]b'')) = Some (js ''a]b'')"
  by code_simp

end
